theory Spec2Isabelle
  imports Complex_Main "HOL-Library.Log_Nat" "HOL-Library.Multiset"
begin

section \<open>Numbers: the binary64 arithmetic behind the score\<close>

text \<open>
  Every counter of the program is a JavaScript number that starts at 0 and grows by
  \<^verbatim>\<open>++\<close> or \<^verbatim>\<open>+=\<close> of other counters, so it is a natural number below
  \<open>2^53\<close> and exact; counters are modelled as \<^typ>\<open>nat\<close>. The score, however, is
  \<^verbatim>\<open>Math.round((baseline / total) * 100)\<close>: the quotient is rounded to the nearest
  binary64 value, the product with 100 is rounded again, and only then \<^verbatim>\<open>Math.round\<close>
  is applied. A binary64 value is modelled as the rational number it denotes, and each
  operation as the exact operation followed by \<open>fl\<close>, rounding to 53 significant bits
  with ties to even (the exponent range is not modelled: no counter quotient reaches
  it).
\<close>

definition scale2 :: "rat \<Rightarrow> int \<Rightarrow> rat" where
  \<comment> \<open>\<open>q * 2^k\<close> for an integer \<open>k\<close> of either sign\<close>
  "scale2 q k = (if 0 \<le> k then q * 2 ^ nat k else q / 2 ^ nat (- k))"

definition ilog2 :: "rat \<Rightarrow> int" where
  \<comment> \<open>binary exponent of a positive rational: the \<open>e\<close> with \<open>2^e \<le> q < 2^(e+1)\<close>\<close>
  "ilog2 q = (let d = (if 1 \<le> q then bitlen \<lfloor>q\<rfloor> - 1 else 1 - bitlen \<lfloor>1 / q\<rfloor>)
              in if scale2 1 d \<le> q then d else d - 1)"

definition rne :: "rat \<Rightarrow> int" where
  \<comment> \<open>round to the nearest integer, ties to the even one\<close>
  "rne x = (let f = \<lfloor>x\<rfloor>; r = x - of_int f
            in if r < 1 / 2 then f
               else if 1 / 2 < r then f + 1
               else if even f then f else f + 1)"

definition fl :: "rat \<Rightarrow> rat" where
  \<comment> \<open>the binary64 value nearest to a non-negative rational\<close>
  "fl q = (if q \<le> 0 then 0
           else let e = ilog2 q in scale2 (of_int (rne (scale2 q (52 - e)))) (e - 52))"

definition Math_round :: "rat \<Rightarrow> int" where
  \<comment> \<open>\<^verbatim>\<open>Math.round\<close>: the nearest integer, ties towards plus infinity\<close>
  "Math_round x = \<lfloor>x + 1 / 2\<rfloor>"

definition score :: "nat \<Rightarrow> nat \<Rightarrow> nat \<Rightarrow> int" where
  \<comment> \<open>analyzer.ts 116-119, webpack index.ts 109-110, and the Vite and Rollup plugins:
      \<^verbatim>\<open>total > 0 ? Math.round((baseline / total) * 100) : 100\<close>\<close>
  "score baseline limited nonBaseline =
     (let total = baseline + limited + nonBaseline
      in if total > 0
         then Math_round (fl (fl (of_nat baseline / of_nat total) * 100))
         else 100)"

definition round_half_up :: "rat \<Rightarrow> int" where
  \<comment> \<open>the rounding the specification names, on exact rationals\<close>
  "round_half_up x = \<lfloor>x + 1 / 2\<rfloor>"

definition spec_score :: "nat \<Rightarrow> nat \<Rightarrow> nat \<Rightarrow> int" where
  \<comment> \<open>the specification's formula, in exact arithmetic:
      \<^verbatim>\<open>total == 0 ? 100 : round(100 * baseline / total)\<close>\<close>
  "spec_score baseline limited nonBaseline =
     (let total = baseline + limited + nonBaseline
      in if total = 0 then 100
         else round_half_up (100 * of_nat baseline / of_nat total))"


section \<open>Aggregation (cli/src/analyzer.ts, \<^verbatim>\<open>ProjectAnalyzer.analyze\<close>)\<close>

datatype lang = css | js

record counts =
  baselineCount :: nat
  limitedCount :: nat
  nonBaselineCount :: nat

record FileResult = counts +
  fileName :: string
  language :: lang
  features :: "string list"

record AnalysisResult = counts +
  baselineScore :: int
  fileResults :: "FileResult list"

record AnalyzeOptions =
  cssOnly :: bool
  jsOnly :: bool

definition accumulate :: "counts \<Rightarrow> 'a counts_scheme \<Rightarrow> counts" where
  \<comment> \<open>the loop body, lines 99-101 and 110-112: three \<^verbatim>\<open>+=\<close>\<close>
  "accumulate t r =
     \<lparr>baselineCount = baselineCount t + baselineCount r,
      limitedCount = limitedCount t + limitedCount r,
      nonBaselineCount = nonBaselineCount t + nonBaselineCount r\<rparr>"

definition aggregate :: "'a counts_scheme list \<Rightarrow> counts" where
  \<comment> \<open>the totals start at 0 (lines 90-92) and each result is folded in, in order\<close>
  "aggregate rs =
     foldl accumulate \<lparr>baselineCount = 0, limitedCount = 0, nonBaselineCount = 0\<rparr> rs"

definition analyze :: "AnalyzeOptions \<Rightarrow> FileResult list \<Rightarrow> FileResult list \<Rightarrow> AnalysisResult" where
  \<comment> \<open>\<open>cssResults\<close> and \<open>jsResults\<close> are the per-file results in the order the files are
      visited; the score is computed once, from the totals\<close>
  "analyze options cssResults jsResults =
     (let rs = (if \<not> jsOnly options then cssResults else [])
               @ (if \<not> cssOnly options then jsResults else []);
          t = aggregate rs
      in \<lparr>baselineCount = baselineCount t,
          limitedCount = limitedCount t,
          nonBaselineCount = nonBaselineCount t,
          baselineScore = score (baselineCount t) (limitedCount t) (nonBaselineCount t),
          fileResults = rs\<rparr>)"


section \<open>Threshold gates\<close>

text \<open>
  The four integrations decide on their own. Options are merged over the defaults
  \<^verbatim>\<open>{failOnNonBaseline: false, threshold: 80}\<close>; a threshold can still be absent
  (\<^verbatim>\<open>undefined\<close> passed explicitly, or \<^verbatim>\<open>NaN\<close> from \<^verbatim>\<open>parseInt\<close> in the
  CLI), which is \<open>None\<close> here. In the plugins the threshold is tested for truthiness
  first, so 0 disables the comparison as well.
\<close>

datatype outcome = Pass | Warn | Fail

record PluginOptions =
  failOnNonBaseline :: bool
  threshold :: "int option"

definition defaults :: PluginOptions where
  "defaults = \<lparr>failOnNonBaseline = False, threshold = Some 80\<rparr>"

definition below :: "int option \<Rightarrow> int \<Rightarrow> bool" where
  \<comment> \<open>\<^verbatim>\<open>threshold && score < threshold\<close>\<close>
  "below th s = (case th of None \<Rightarrow> False | Some t \<Rightarrow> t \<noteq> 0 \<and> s < t)"

definition checkThresholds :: "PluginOptions \<Rightarrow> int \<Rightarrow> nat \<Rightarrow> bool" where
  \<comment> \<open>plugins/webpack/src/index.ts 222-232\<close>
  "checkThresholds opts s nonBaseline =
     (if failOnNonBaseline opts \<and> nonBaseline > 0 then True
      else if below (threshold opts) s then True
      else False)"

definition webpack_emit :: "PluginOptions \<Rightarrow> counts \<Rightarrow> outcome" where
  \<comment> \<open>index.ts 109-124: the score of the counted features is checked and a
      \<^verbatim>\<open>WebpackError\<close> is pushed to \<^verbatim>\<open>compilation.errors\<close> when the check says so;
      this plugin prints no warning\<close>
  "webpack_emit opts a =
     (let s = score (baselineCount a) (limitedCount a) (nonBaselineCount a)
      in if checkThresholds opts s (nonBaselineCount a) then Fail else Pass)"

definition closeBundle :: "PluginOptions \<Rightarrow> counts \<Rightarrow> outcome" where
  \<comment> \<open>the Vite plugin, lines 90-109: below the threshold it throws when
      \<^verbatim>\<open>failOnNonBaseline\<close> is set and warns otherwise; after a warning the second
      test still runs\<close>
  "closeBundle config a =
     (let s = score (baselineCount a) (limitedCount a) (nonBaselineCount a)
      in if below (threshold config) s \<and> failOnNonBaseline config then Fail
         else if failOnNonBaseline config \<and> nonBaselineCount a > 0 then Fail
         else if below (threshold config) s then Warn
         else Pass)"

definition generateBundle :: "PluginOptions \<Rightarrow> counts \<Rightarrow> outcome" where
  \<comment> \<open>the Rollup plugin, lines 87-106: as the Vite plugin, with \<^verbatim>\<open>this.error\<close> (which
      throws) and \<^verbatim>\<open>this.warn\<close>\<close>
  "generateBundle config a =
     (let s = score (baselineCount a) (limitedCount a) (nonBaselineCount a)
      in if below (threshold config) s \<and> failOnNonBaseline config then Fail
         else if failOnNonBaseline config \<and> nonBaselineCount a > 0 then Fail
         else if below (threshold config) s then Warn
         else Pass)"

definition runCheck :: "bool \<Rightarrow> int option \<Rightarrow> AnalysisResult \<Rightarrow> outcome" where
  \<comment> \<open>cli/src/reporter.ts 252-271: \<^verbatim>\<open>results.baselineScore < threshold\<close> with the
      parsed threshold (no truthiness test here), a printed warning, and
      \<^verbatim>\<open>process.exit(1)\<close> as the failure\<close>
  "runCheck failOn th results =
     (let low = (case th of None \<Rightarrow> False | Some t \<Rightarrow> baselineScore results < t)
      in if low \<and> failOn then Fail
         else if failOn \<and> nonBaselineCount results > 0 then Fail
         else if low then Warn
         else Pass)"


section \<open>Regular expressions of the scanners\<close>

text \<open>
  Every pattern of the scanners is a sequence of a few kinds of atoms: a word boundary, a
  literal, a group of literal alternatives, and a character class under \<^verbatim>\<open>+\<close> or
  \<^verbatim>\<open>*\<close>. The matcher below follows the backtracking order of the JavaScript engine
  on such sequences: alternatives from left to right, quantifiers longest first. Strings
  are lists of code units below 256.
\<close>

definition is_word :: "char \<Rightarrow> bool" where
  \<comment> \<open>\<^verbatim>\<open>\w\<close>, that is \<^verbatim>\<open>[A-Za-z0-9_]\<close>\<close>
  "is_word c = (let n = (of_char c :: nat)
                in (48 \<le> n \<and> n \<le> 57) \<or> (65 \<le> n \<and> n \<le> 90) \<or> n = 95
                   \<or> (97 \<le> n \<and> n \<le> 122))"

definition is_space :: "char \<Rightarrow> bool" where
  \<comment> \<open>\<^verbatim>\<open>\s\<close>: tab, line feed, vertical tab, form feed, carriage return, space, no-break
      space\<close>
  "is_space c =
     (c \<in> {CHR 0x09, CHR 0x0A, CHR 0x0B, CHR 0x0C, CHR 0x0D, CHR 0x20, CHR 0xA0})"

datatype cls = Word | WordDot | WordDash | Space | NotSemi

fun in_cls :: "cls \<Rightarrow> char \<Rightarrow> bool" where
  "in_cls Word c = is_word c"
| "in_cls WordDot c = (is_word c \<or> c = CHR ''.'')"
| "in_cls WordDash c = (is_word c \<or> c = CHR ''-'')"
| "in_cls Space c = is_space c"
| "in_cls NotSemi c = (c \<noteq> CHR '';'')"

datatype atom =
    B                  \<comment> \<open>\<^verbatim>\<open>\b\<close>\<close>
  | L string           \<comment> \<open>a literal\<close>
  | G "string list"    \<comment> \<open>a capturing group of literal alternatives\<close>
  | Many cls           \<comment> \<open>a class under \<^verbatim>\<open>+\<close>\<close>
  | Any cls            \<comment> \<open>a class under \<^verbatim>\<open>*\<close>\<close>
  | GMany cls          \<comment> \<open>a capturing group of a class under \<^verbatim>\<open>+\<close>\<close>

primrec down_from :: "nat \<Rightarrow> nat list" where
  "down_from 0 = [0]"
| "down_from (Suc k) = Suc k # down_from k"

definition starts_with :: "string \<Rightarrow> string \<Rightarrow> bool" where
  "starts_with w s = (take (length w) s = w)"

fun lengths :: "atom \<Rightarrow> bool \<Rightarrow> string \<Rightarrow> nat list" where
  \<comment> \<open>the numbers of characters an atom can consume at the front of \<open>s\<close>, in the order
      the engine tries them; \<open>pw\<close> tells whether the previous character is a word
      character\<close>
  "lengths B pw s =
     (if pw \<noteq> (case s of [] \<Rightarrow> False | c # _ \<Rightarrow> is_word c) then [0] else [])"
| "lengths (L w) pw s = (if starts_with w s then [length w] else [])"
| "lengths (G ws) pw s = map length (filter (\<lambda>w. starts_with w s) ws)"
| "lengths (Many c) pw s = butlast (down_from (length (takeWhile (in_cls c) s)))"
| "lengths (Any c) pw s = down_from (length (takeWhile (in_cls c) s))"
| "lengths (GMany c) pw s = butlast (down_from (length (takeWhile (in_cls c) s)))"

fun captures :: "atom \<Rightarrow> bool" where
  "captures (G ws) = True"
| "captures (GMany c) = True"
| "captures a = False"

fun first_match :: "nat list \<Rightarrow> (nat \<Rightarrow> 'a option) \<Rightarrow> 'a option" where
  "first_match [] f = None"
| "first_match (n # ns) f = (case f n of Some r \<Rightarrow> Some r | None \<Rightarrow> first_match ns f)"

primrec matchSeq :: "atom list \<Rightarrow> bool \<Rightarrow> string \<Rightarrow> (nat \<times> string option) option" where
  \<comment> \<open>a match of the whole sequence at the front of \<open>s\<close>: its length and the text of
      the first capturing group\<close>
  "matchSeq [] pw s = Some (0, None)"
| "matchSeq (a # as) pw s =
     first_match (lengths a pw s)
       (\<lambda>n. case matchSeq as (if n = 0 then pw else is_word (s ! (n - 1))) (drop n s) of
               None \<Rightarrow> None
             | Some (m, g) \<Rightarrow> Some (n + m, if captures a then Some (take n s) else g))"

record rmatch =
  index :: nat              \<comment> \<open>\<^verbatim>\<open>match.index\<close>\<close>
  whole :: string           \<comment> \<open>\<^verbatim>\<open>match[0]\<close>\<close>
  group1 :: "string option" \<comment> \<open>\<^verbatim>\<open>match[1]\<close>\<close>

fun execAll :: "atom list \<Rightarrow> nat \<Rightarrow> nat \<Rightarrow> bool \<Rightarrow> string \<Rightarrow> rmatch list" where
  \<comment> \<open>the loop \<^verbatim>\<open>while ((match = regex.exec(text)) !== null)\<close> of a global pattern:
      the leftmost match from \<^verbatim>\<open>lastIndex\<close> on, then on from the end of that match
      (\<open>skip\<close> counts the characters up to there). Every pattern of the program
      consumes at least one character.\<close>
  "execAll rx skip pos pw [] = []"
| "execAll rx skip pos pw (c # cs) =
     (if skip > 0 then execAll rx (skip - 1) (pos + 1) (is_word c) cs
      else case matchSeq rx pw (c # cs) of
             None \<Rightarrow> execAll rx 0 (pos + 1) (is_word c) cs
           | Some (n, g) \<Rightarrow>
               \<lparr>index = pos, whole = take n (c # cs), group1 = g\<rparr>
                 # execAll rx (n - 1) (pos + 1) (is_word c) cs)"

definition exec_all :: "atom list \<Rightarrow> string \<Rightarrow> rmatch list" where
  "exec_all rx text = execAll rx 0 0 False text"

definition group1_or :: "string \<Rightarrow> rmatch \<Rightarrow> string" where
  \<comment> \<open>\<^verbatim>\<open>match[1] || d\<close>: an absent or empty group gives \<open>d\<close>\<close>
  "group1_or d m = (case group1 m of None \<Rightarrow> d | Some g \<Rightarrow> if g = [] then d else g)"

definition propertyRegex :: "atom list" where
  \<comment> \<open>\<^verbatim>\<open>/([\w-]+)\s*:\s*([^;]+);/g\<close>; the second group is never read by the counting
      code\<close>
  "propertyRegex = [GMany WordDash, Any Space, L '':'', Any Space, Many NotSemi, L '';'']"


section \<open>The CLI analyzer (cli/src/analyzer.ts)\<close>

text \<open>
  The catalog of the CLI is an object literal from identifiers to status strings, read
  with \<^verbatim>\<open>baselineData.css[property]\<close>. Such a read also finds the members every
  object inherits from \<^verbatim>\<open>Object.prototype\<close>; their values are functions or objects,
  so they are truthy and equal to no status string.
\<close>

datatype jsval = Undefined | Str string | Inherited

definition Object_prototype :: "string list" where
  "Object_prototype =
     [''constructor'', ''hasOwnProperty'', ''isPrototypeOf'', ''propertyIsEnumerable'',
      ''toLocaleString'', ''toString'', ''valueOf'', ''__proto__'', ''__defineGetter__'',
      ''__defineSetter__'', ''__lookupGetter__'', ''__lookupSetter__'']"

definition get_prop :: "(string \<rightharpoonup> string) \<Rightarrow> string \<Rightarrow> jsval" where
  "get_prop obj k =
     (case obj k of
        Some v \<Rightarrow> Str v
      | None \<Rightarrow> if k \<in> set Object_prototype then Inherited else Undefined)"

fun truthy :: "jsval \<Rightarrow> bool" where
  "truthy Undefined = False"
| "truthy (Str v) = (v \<noteq> [])"
| "truthy Inherited = True"

definition cli_css :: "string \<rightharpoonup> string" where
  "cli_css = map_of
     [(''display'', ''baseline''), (''flex'', ''baseline''),
      (''flex-direction'', ''baseline''), (''flex-wrap'', ''baseline''),
      (''justify-content'', ''baseline''), (''align-items'', ''baseline''),
      (''gap'', ''baseline''), (''grid'', ''baseline''),
      (''grid-template-columns'', ''baseline''), (''grid-template-rows'', ''baseline''),
      (''position'', ''baseline''), (''backdrop-filter'', ''baseline''),
      (''transform'', ''baseline''), (''container-type'', ''limited''),
      (''container-name'', ''limited''), (''container'', ''limited'')]"

definition cli_js :: "string \<rightharpoonup> string" where
  "cli_js = map_of
     [(''fetch'', ''baseline''), (''Promise'', ''baseline''), (''async'', ''baseline''),
      (''await'', ''baseline''), (''IntersectionObserver'', ''baseline''),
      (''ResizeObserver'', ''baseline''), (''MutationObserver'', ''baseline''),
      (''localStorage'', ''baseline''), (''crypto'', ''baseline''),
      (''BroadcastChannel'', ''baseline''), (''navigator.share'', ''limited''),
      (''document.startViewTransition'', ''limited'')]"

definition add_feature :: "string \<Rightarrow> string list \<Rightarrow> string list" where
  \<comment> \<open>\<^verbatim>\<open>features.add\<close> on a \<^verbatim>\<open>Set\<close>, which keeps insertion order\<close>
  "add_feature x xs = (if x \<in> set xs then xs else xs @ [x])"

definition tally :: "(string \<rightharpoonup> string) \<Rightarrow> FileResult \<Rightarrow> string \<Rightarrow> FileResult" where
  \<comment> \<open>lines 161-168 and 207-214: look the identifier up and, when the result is
      truthy, record it and count it under its status\<close>
  "tally data r ident =
     (let status = get_prop data ident
      in if truthy status
         then let r' = r\<lparr>features := add_feature ident (features r)\<rparr>
              in if status = Str ''baseline'' then r'\<lparr>baselineCount := baselineCount r' + 1\<rparr>
                 else if status = Str ''limited'' then r'\<lparr>limitedCount := limitedCount r' + 1\<rparr>
                 else r'\<lparr>nonBaselineCount := nonBaselineCount r' + 1\<rparr>
         else r)"

definition analyzeCSSFile :: "(string \<rightharpoonup> string) \<Rightarrow> string \<Rightarrow> string \<Rightarrow> FileResult" where
  "analyzeCSSFile data filePath content =
     foldl (tally data)
       \<lparr>baselineCount = 0, limitedCount = 0, nonBaselineCount = 0,
        fileName = filePath, language = css, features = []\<rparr>
       (map (group1_or ''undefined'') (exec_all propertyRegex content))"

definition cli_patterns :: "atom list list" where
  \<comment> \<open>analyzer.ts 188-196\<close>
  "cli_patterns =
     [[B, G [''fetch'', ''localStorage'', ''crypto''], B],
      [B, G [''IntersectionObserver'', ''ResizeObserver'', ''MutationObserver''], B],
      [B, G [''Promise''], B],
      [B, L ''async'', Many Space, L ''function''],
      [B, L ''await'', Many Space],
      [L ''navigator.'', G [''share'']],
      [L ''document.'', G [''startViewTransition'']]]"

definition analyzeJSFile :: "(string \<rightharpoonup> string) \<Rightarrow> string \<Rightarrow> string \<Rightarrow> FileResult" where
  \<comment> \<open>each pattern is run over the whole content in turn;
      \<^verbatim>\<open>api = match[1] || 'async'\<close>\<close>
  "analyzeJSFile data filePath content =
     foldl (tally data)
       \<lparr>baselineCount = 0, limitedCount = 0, nonBaselineCount = 0,
        fileName = filePath, language = js, features = []\<rparr>
       (concat (map (\<lambda>pattern. map (group1_or ''async'') (exec_all pattern content))
                  cli_patterns))"


section \<open>The editor's parsers (src/utils/parser.ts)\<close>

definition line_of :: "string \<Rightarrow> nat \<Rightarrow> nat" where
  \<comment> \<open>\<^verbatim>\<open>document.positionAt(offset).line\<close> of the editor API: the number of line
      breaks before the offset\<close>
  "line_of text offset = length (filter (\<lambda>c. c = CHR 0x0A) (take offset text))"

record located =
  line :: nat
  offset :: nat   \<comment> \<open>start of \<^verbatim>\<open>range\<close>\<close>

record CSSProperty = located +
  name :: string

record JSAPIUsage = located +
  api :: string

definition extractCSSProperties :: "string \<Rightarrow> CSSProperty list" where
  "extractCSSProperties text =
     map (\<lambda>m. \<lparr>line = line_of text (index m), offset = index m,
                name = group1_or ''undefined'' m\<rparr>)
       (exec_all propertyRegex text)"

definition js_patterns :: "(atom list \<times> string) list" where
  \<comment> \<open>parser.ts 83-115, each with its \<^verbatim>\<open>type\<close>\<close>
  "js_patterns =
     [([L ''new'', Many Space, GMany WordDot, Any Space, L ''(''], ''constructor''),
      ([B, G [''fetch'', ''localStorage'', ''sessionStorage'', ''crypto'', ''navigator''], B],
       ''global''),
      ([B, G [''IntersectionObserver'', ''ResizeObserver'', ''MutationObserver'',
              ''PerformanceObserver''], B], ''observer''),
      ([B, L ''async'', Many Space, L ''function''], ''async''),
      ([B, L ''await'', Many Space], ''await''),
      ([B, L ''Promise'', B], ''promise''),
      ([B, G [''WeakMap'', ''WeakSet'', ''Map'', ''Set''], B], ''collection''),
      ([B, G [''Proxy'', ''Reflect''], B], ''meta''),
      ([B, G [''querySelector'', ''querySelectorAll'', ''getElementById''], B], ''dom''),
      ([B, G [''BroadcastChannel'', ''WebSocket'', ''Worker'', ''ServiceWorker''], B], ''web''),
      ([L ''navigator.'', G [''share'', ''geolocation'', ''mediaDevices'', ''serviceWorker'']],
       ''navigator''),
      ([L ''document.'', G [''startViewTransition'', ''requestStorageAccess'']],
       ''document'')]"

definition strip_new :: "string \<Rightarrow> string" where
  \<comment> \<open>\<^verbatim>\<open>apiName.replace(/^new\s+/, '')\<close>\<close>
  "strip_new s =
     (if starts_with ''new'' s \<and> takeWhile is_space (drop 3 s) \<noteq> []
      then dropWhile is_space (drop 3 s) else s)"

fun str_includes :: "string \<Rightarrow> string \<Rightarrow> bool" where
  "str_includes [] w = (w = [])"
| "str_includes (c # cs) w = (starts_with w (c # cs) \<or> str_includes cs w)"

definition trim :: "string \<Rightarrow> string" where
  "trim s = rev (dropWhile is_space (rev (dropWhile is_space s)))"

definition cleanAPIName :: "string \<Rightarrow> string \<Rightarrow> string" where
  \<comment> \<open>parser.ts 153-171; the \<^verbatim>\<open>type\<close> argument is not read\<close>
  "cleanAPIName apiName0 ty =
     (let apiName = strip_new apiName0
      in if apiName = ''async function'' \<or> str_includes apiName ''async'' then ''async''
         else if str_includes apiName ''await'' then ''async''
         else if starts_with ''navigator.'' apiName \<or> starts_with ''document.'' apiName
              then apiName
         else trim apiName)"

definition digit :: "nat \<Rightarrow> char" where
  "digit d = ''0123456789'' ! d"

function to_string :: "nat \<Rightarrow> string" where
  \<comment> \<open>the decimal digits of a line number inside a template literal\<close>
  "to_string n = (if n < 10 then [digit n] else to_string (n div 10) @ [digit (n mod 10)])"
  by pat_completeness auto
termination
  by (relation "measure id") auto

declare to_string.simps [simp del]

definition key_of :: "JSAPIUsage \<Rightarrow> string" where
  \<comment> \<open>\<^verbatim>\<open>`${usage.line}:${usage.api}`\<close>\<close>
  "key_of usage = to_string (line usage) @ '':'' @ api usage"

fun filter_seen :: "string set \<Rightarrow> JSAPIUsage list \<Rightarrow> JSAPIUsage list" where
  \<comment> \<open>the \<^verbatim>\<open>filter\<close> callback of lines 178-185 with its \<^verbatim>\<open>seen\<close> set\<close>
  "filter_seen seen [] = []"
| "filter_seen seen (usage # usages) =
     (if key_of usage \<in> seen then filter_seen seen usages
      else usage # filter_seen (insert (key_of usage) seen) usages)"

definition deduplicateUsages :: "JSAPIUsage list \<Rightarrow> JSAPIUsage list" where
  "deduplicateUsages usages = filter_seen {} usages"

definition rawUsages :: "string \<Rightarrow> JSAPIUsage list" where
  \<comment> \<open>parser.ts 117-144: for each pattern in turn, one usage per match;
      \<^verbatim>\<open>apiName = match[1] || match[0]\<close>, the position is that of the match start\<close>
  "rawUsages text =
     concat (map (\<lambda>(regex, ty).
                    map (\<lambda>m. \<lparr>line = line_of text (index m), offset = index m,
                               api = cleanAPIName (group1_or (whole m) m) ty\<rparr>)
                      (exec_all regex text))
               js_patterns)"

definition extractAPIUsage :: "string \<Rightarrow> JSAPIUsage list" where
  "extractAPIUsage text = deduplicateUsages (rawUsages text)"


section \<open>The editor's catalog and dashboard\<close>

record Feature =
  featureId :: string
  status :: string

definition index_css :: "(Feature \<times> string list) list \<Rightarrow> (string \<rightharpoonup> Feature)" where
  \<comment> \<open>\<^verbatim>\<open>createMockData\<close>: each feature is stored under each of its properties\<close>
  "index_css fs =
     foldl (\<lambda>m (f, properties). foldl (\<lambda>m prop. m(prop \<mapsto> f)) m properties) Map.empty fs"

definition index_js :: "(Feature \<times> string \<times> string list) list \<Rightarrow> (string \<rightharpoonup> Feature)" where
  \<comment> \<open>each feature is stored under its \<^verbatim>\<open>api\<close> and then under each of its methods\<close>
  "index_js fs =
     foldl (\<lambda>m (f, api, methods). foldl (\<lambda>m method. m(method \<mapsto> f)) (m(api \<mapsto> f)) methods)
       Map.empty fs"

definition mockCSSFeatures :: "(Feature \<times> string list) list" where
  "mockCSSFeatures =
     [(\<lparr>featureId = ''css-display'', status = ''baseline''\<rparr>, [''display'']),
      (\<lparr>featureId = ''css-gap'', status = ''baseline''\<rparr>, [''gap'', ''row-gap'', ''column-gap'']),
      (\<lparr>featureId = ''css-flexbox'', status = ''baseline''\<rparr>,
       [''flex'', ''flex-direction'', ''flex-wrap'', ''justify-content'', ''align-items'',
        ''align-content'', ''flex-grow'', ''flex-shrink'', ''flex-basis'']),
      (\<lparr>featureId = ''css-grid'', status = ''baseline''\<rparr>,
       [''grid'', ''grid-template-columns'', ''grid-template-rows'', ''grid-area'',
        ''grid-column'', ''grid-row'']),
      (\<lparr>featureId = ''css-position-sticky'', status = ''baseline''\<rparr>, [''position'']),
      (\<lparr>featureId = ''css-container-queries'', status = ''limited''\<rparr>,
       [''container-type'', ''container-name'', ''container'']),
      (\<lparr>featureId = ''css-backdrop-filter'', status = ''baseline''\<rparr>, [''backdrop-filter'']),
      (\<lparr>featureId = ''css-color-oklch'', status = ''limited''\<rparr>, [''color''])]"

definition mockJSFeatures :: "(Feature \<times> string \<times> string list) list" where
  "mockJSFeatures =
     [(\<lparr>featureId = ''fetch-api'', status = ''baseline''\<rparr>, ''fetch'',
       [''fetch'', ''Response'', ''Request'', ''Headers'']),
      (\<lparr>featureId = ''promises'', status = ''baseline''\<rparr>, ''Promise'',
       [''then'', ''catch'', ''finally'', ''all'', ''race'']),
      (\<lparr>featureId = ''async-await'', status = ''baseline''\<rparr>, ''async'',
       [''async'', ''await'']),
      (\<lparr>featureId = ''intersection-observer'', status = ''baseline''\<rparr>,
       ''IntersectionObserver'', [''observe'', ''unobserve'', ''disconnect'']),
      (\<lparr>featureId = ''resize-observer'', status = ''baseline''\<rparr>, ''ResizeObserver'',
       [''observe'', ''unobserve'', ''disconnect'']),
      (\<lparr>featureId = ''mutation-observer'', status = ''baseline''\<rparr>, ''MutationObserver'',
       [''observe'', ''disconnect'', ''takeRecords'']),
      (\<lparr>featureId = ''local-storage'', status = ''baseline''\<rparr>, ''localStorage'',
       [''getItem'', ''setItem'', ''removeItem'', ''clear'']),
      (\<lparr>featureId = ''web-crypto'', status = ''baseline''\<rparr>, ''crypto'',
       [''subtle'', ''getRandomValues'']),
      (\<lparr>featureId = ''broadcast-channel'', status = ''baseline''\<rparr>, ''BroadcastChannel'',
       [''postMessage'', ''close'']),
      (\<lparr>featureId = ''web-share-api'', status = ''limited''\<rparr>, ''navigator.share'',
       [''share'', ''canShare'']),
      (\<lparr>featureId = ''view-transitions'', status = ''limited''\<rparr>,
       ''document.startViewTransition'', [''startViewTransition''])]"

definition bump :: "Feature option \<Rightarrow> counts \<Rightarrow> counts" where
  \<comment> \<open>\<^verbatim>\<open>if (feature) { if (feature.status === 'baseline') ... }\<close>\<close>
  "bump feature c =
     (case feature of
        None \<Rightarrow> c
      | Some f \<Rightarrow>
          if status f = ''baseline'' then c\<lparr>baselineCount := baselineCount c + 1\<rparr>
          else if status f = ''limited'' then c\<lparr>limitedCount := limitedCount c + 1\<rparr>
          else c\<lparr>nonBaselineCount := nonBaselineCount c + 1\<rparr>)"

fun countJS :: "(string \<rightharpoonup> Feature) \<Rightarrow> nat set \<Rightarrow> counts \<Rightarrow> JSAPIUsage list \<Rightarrow> counts" where
  \<comment> \<open>the dashboard's loop over the usages of one file, with its \<^verbatim>\<open>seenOnLine\<close> set\<close>
  "countJS jsFeatures seenOnLine c [] = c"
| "countJS jsFeatures seenOnLine c (usage # apis) =
     (if line usage \<in> seenOnLine then countJS jsFeatures seenOnLine c apis
      else countJS jsFeatures (insert (line usage) seenOnLine)
             (bump (jsFeatures (api usage)) c) apis)"

definition countCSS :: "(string \<rightharpoonup> Feature) \<Rightarrow> counts \<Rightarrow> CSSProperty list \<Rightarrow> counts" where
  "countCSS cssFeatures c properties =
     foldl (\<lambda>c prop. bump (cssFeatures (name prop)) c) c properties"

record ProjectStats =
  totalCSSProperties :: nat
  totalJSAPIs :: nat
  cssCounts :: counts   \<comment> \<open>\<^verbatim>\<open>baselineCSSCount\<close>, \<^verbatim>\<open>limitedCSSCount\<close>, \<^verbatim>\<open>nonBaselineCSSCount\<close>\<close>
  jsCounts :: counts    \<comment> \<open>\<^verbatim>\<open>baselineJSCount\<close>, \<^verbatim>\<open>limitedJSCount\<close>, \<^verbatim>\<open>nonBaselineJSCount\<close>\<close>
  dashboardScore :: int \<comment> \<open>\<^verbatim>\<open>baselineScore\<close>\<close>

definition zero_counts :: counts where
  "zero_counts = \<lparr>baselineCount = 0, limitedCount = 0, nonBaselineCount = 0\<rparr>"

definition getProjectStats ::
  "(string \<rightharpoonup> Feature) \<Rightarrow> (string \<rightharpoonup> Feature) \<Rightarrow> string list \<Rightarrow> string list \<Rightarrow> ProjectStats" where
  \<comment> \<open>the dashboard panel, lines 107-173, on the texts of the CSS and JS documents that
      were found and opened; at most 50 of each are read\<close>
  "getProjectStats cssFeatures jsFeatures cssTexts jsTexts =
     (let (nCSS, cCSS) =
            foldl (\<lambda>(n, c) text.
                     let properties = extractCSSProperties text
                     in (n + length properties, countCSS cssFeatures c properties))
              (0, zero_counts) (take 50 cssTexts);
          (nJS, cJS) =
            foldl (\<lambda>(n, c) text.
                     let apis = extractAPIUsage text
                     in (n + length apis, countJS jsFeatures {} c apis))
              (0, zero_counts) (take 50 jsTexts);
          totalBaseline = baselineCount cCSS + baselineCount cJS;
          totalFeatures = nCSS + nJS
      in \<lparr>totalCSSProperties = nCSS, totalJSAPIs = nJS, cssCounts = cCSS, jsCounts = cJS,
          dashboardScore =
            (if totalFeatures > 0
             then Math_round (fl (fl (of_nat totalBaseline / of_nat totalFeatures) * 100))
             else 100)\<rparr>)"


section \<open>Notions used to state the properties\<close>

definition line_status :: "(string \<rightharpoonup> Feature) \<Rightarrow> JSAPIUsage list \<Rightarrow> nat \<Rightarrow> string option" where
  \<comment> \<open>the status of the first usage of a list that lies on line \<open>l\<close>, when there is
      such a usage and the catalog knows its identifier\<close>
  "line_status jsFeatures apis l =
     (case List.find (\<lambda>u. line u = l) apis of
        None \<Rightarrow> None
      | Some u \<Rightarrow> map_option status (jsFeatures (api u)))"

definition increments :: "'a counts_scheme \<Rightarrow> nat" where
  "increments c = baselineCount c + limitedCount c + nonBaselineCount c"


definition scenario_js :: string where
  \<comment> \<open>the JavaScript text of the specification's scenario, one line\<close>
  "scenario_js =
     ''async function f() { await fetch('' @ [CHR 0x27] @ ''/x'' @ [CHR 0x27]
       @ ''); navigator.share({}); }''"

definition scenario_catalog :: "string \<rightharpoonup> string" where
  \<comment> \<open>the catalog of the scenario, as an object of status strings\<close>
  "scenario_catalog =
     map_of [(''fetch'', ''baseline''), (''async'', ''baseline''),
             (''navigator.share'', ''limited'')]"

definition scenario_features :: "string \<rightharpoonup> Feature" where
  \<comment> \<open>the same catalog, as the editor's map of features\<close>
  "scenario_features =
     [''fetch'' \<mapsto> \<lparr>featureId = ''fetch-api'', status = ''baseline''\<rparr>,
      ''async'' \<mapsto> \<lparr>featureId = ''async-await'', status = ''baseline''\<rparr>,
      ''navigator.share'' \<mapsto> \<lparr>featureId = ''web-share-api'', status = ''limited''\<rparr>]"


section \<open>Evaluation of the score\<close>

lemma floor_rat_numeral:
  "\<lfloor>(numeral a / numeral b :: rat)\<rfloor> = numeral a div numeral b"
  using floor_divide_of_int_eq [of "numeral a" "numeral b", where ?'a = rat] by simp

lemma floor_rat_one_numeral:
  "\<lfloor>(1 / numeral b :: rat)\<rfloor> = 1 div numeral b"
  using floor_divide_of_int_eq [of 1 "numeral b", where ?'a = rat] by simp

lemmas score_eval =
  score_def fl_def ilog2_def rne_def Math_round_def bitlen_def compute_floorlog Let_def
  scale2_def floor_rat_numeral floor_rat_one_numeral

lemma score_8_0_2: "score 8 0 2 = 80"
  by (simp add: score_eval)

lemma score_0_5_0: "score 0 5 0 = 0"
  by (simp add: score_eval)

lemma score_23_17_0: "score 23 17 0 = 57"
  by (simp add: score_eval)

lemma score_3_1_0: "score 3 (Suc 0) 0 = 75"
  by (simp add: score_eval)

lemma score_19_0_1: "score 19 0 (Suc 0) = 95"
  by (simp add: score_eval)

lemma quotient_23_40: "fl (23 / 40) = 2589569785738035 / 4503599627370496"
  by (simp add: score_eval)

lemma product_23_40:
  "fl (2589569785738035 / 4503599627370496 * 100) = 8092405580431359 / 140737488355328"
  by (simp add: score_eval)

text \<open>
  C1. The score is 100 for an empty total, \<open>score(0,5,0) = 0\<close> and \<open>score(8,0,2) = 80\<close>,
  as claimed. It is not the half-up rounding of the exact quotient at every input: with
  23 baseline and 17 limited usages the exact value is 57.5, which rounds up to 58, but
  the program divides first: \<open>23 / 40\<close> is the binary64 value just below 0.575, its
  product with 100 is the binary64 value 57.49999999999999, and \<^verbatim>\<open>Math.round\<close>
  returns 57.
\<close>

theorem score_divides_before_scaling:
  "score 0 0 0 = 100 \<and> score 0 5 0 = 0 \<and> score 8 0 2 = 80
   \<and> fl (23 / 40) = 2589569785738035 / 4503599627370496
   \<and> fl (fl (23 / 40) * 100) = 8092405580431359 / 140737488355328
   \<and> score 23 17 0 = 57 \<and> spec_score 23 17 0 = 58"
proof -
  have empty: "score 0 0 0 = 100"
    by (simp add: score_def)
  have exact: "spec_score 23 17 0 = 58"
    by (simp add: spec_score_def round_half_up_def floor_rat_numeral)
  have product: "fl (fl (23 / 40) * 100) = 8092405580431359 / 140737488355328"
    by (simp only: quotient_23_40 product_23_40)
  from empty score_0_5_0 score_8_0_2 quotient_23_40 product score_23_17_0 exact
  show ?thesis by blast
qed


section \<open>The gates\<close>

text \<open>
  C3. With 3 baseline usages and 1 limited one the score is 75, below the default
  threshold 80, and \<^verbatim>\<open>failOnNonBaseline\<close> is off. The Vite plugin, the Rollup plugin
  and the CLI warn and go on; the webpack plugin's \<^verbatim>\<open>checkThresholds\<close> returns true
  and a build error is pushed.
\<close>

theorem webpack_fails_when_not_strict:
  "checkThresholds defaults 75 0 = True
   \<and> webpack_emit defaults \<lparr>baselineCount = 3, limitedCount = 1, nonBaselineCount = 0\<rparr> = Fail
   \<and> closeBundle defaults \<lparr>baselineCount = 3, limitedCount = 1, nonBaselineCount = 0\<rparr> = Warn
   \<and> generateBundle defaults \<lparr>baselineCount = 3, limitedCount = 1, nonBaselineCount = 0\<rparr> = Warn
   \<and> runCheck False (Some 80)
        (analyze \<lparr>cssOnly = False, jsOnly = False\<rparr>
           [\<lparr>baselineCount = 3, limitedCount = 1, nonBaselineCount = 0,
             fileName = ''a.css'', language = css, features = [''display'', ''container'']\<rparr>] [])
       = Warn"
  by (simp add: checkThresholds_def webpack_emit_def closeBundle_def generateBundle_def
      runCheck_def analyze_def aggregate_def accumulate_def defaults_def below_def
      score_3_1_0)

text \<open>
  C4. When \<^verbatim>\<open>failOnNonBaseline\<close> is set and at least one non-baseline usage was
  counted, every gate fails, whatever the score and the threshold are.
\<close>

theorem strict_nonBaseline_fails:
  assumes "failOnNonBaseline opts" and "nonBaselineCount a > 0"
    and "nonBaselineCount results > 0"
  shows "checkThresholds opts s (nonBaselineCount a) = True
    \<and> webpack_emit opts a = Fail
    \<and> closeBundle opts a = Fail
    \<and> generateBundle opts a = Fail
    \<and> runCheck True th results = Fail"
  using assms
  by (simp add: checkThresholds_def webpack_emit_def closeBundle_def generateBundle_def
      runCheck_def Let_def)

theorem strict_nonBaseline_fails_witness:
  "score 19 0 1 = 95
   \<and> checkThresholds \<lparr>failOnNonBaseline = True, threshold = Some 80\<rparr> 95 1 = True
   \<and> webpack_emit \<lparr>failOnNonBaseline = True, threshold = Some 80\<rparr>
        \<lparr>baselineCount = 19, limitedCount = 0, nonBaselineCount = 1\<rparr> = Fail
   \<and> closeBundle \<lparr>failOnNonBaseline = True, threshold = Some 80\<rparr>
        \<lparr>baselineCount = 19, limitedCount = 0, nonBaselineCount = 1\<rparr> = Fail
   \<and> generateBundle \<lparr>failOnNonBaseline = True, threshold = Some 80\<rparr>
        \<lparr>baselineCount = 19, limitedCount = 0, nonBaselineCount = 1\<rparr> = Fail
   \<and> runCheck True (Some 80)
        \<lparr>baselineCount = 19, limitedCount = 0, nonBaselineCount = 1,
         baselineScore = 95, fileResults = []\<rparr> = Fail"
  using strict_nonBaseline_fails
    [of "\<lparr>failOnNonBaseline = True, threshold = Some 80\<rparr>"
        "\<lparr>baselineCount = 19, limitedCount = 0, nonBaselineCount = 1\<rparr>"
        "\<lparr>baselineCount = 19, limitedCount = 0, nonBaselineCount = 1,
          baselineScore = 95, fileResults = []\<rparr>"
        95 "Some 80"]
    score_19_0_1
  by simp


section \<open>Aggregation is a pointwise sum\<close>

lemma foldl_accumulate:
  "foldl accumulate t rs =
     \<lparr>baselineCount = baselineCount t + sum_list (map baselineCount rs),
      limitedCount = limitedCount t + sum_list (map limitedCount rs),
      nonBaselineCount = nonBaselineCount t + sum_list (map nonBaselineCount rs)\<rparr>"
  by (induction rs arbitrary: t) (simp_all add: accumulate_def add.assoc)

lemma aggregate_sums:
  "aggregate rs =
     \<lparr>baselineCount = sum_list (map baselineCount rs),
      limitedCount = sum_list (map limitedCount rs),
      nonBaselineCount = sum_list (map nonBaselineCount rs)\<rparr>"
  by (simp add: aggregate_def foldl_accumulate)

lemma sum_list_map_mset:
  fixes f :: "'a \<Rightarrow> nat"
  assumes "mset xs = mset ys"
  shows "sum_list (map f xs) = sum_list (map f ys)"
proof -
  have "sum_mset (image_mset f (mset xs)) = sum_mset (image_mset f (mset ys))"
    using assms by simp
  then show ?thesis
    by (simp add: sum_mset_sum_list flip: mset_map)
qed

lemma analyze_fileResults:
  "fileResults (analyze options cssResults jsResults)
     = (if \<not> jsOnly options then cssResults else [])
       @ (if \<not> cssOnly options then jsResults else [])"
  by (simp add: analyze_def Let_def)

lemma analyze_sums:
  "baselineCount (analyze options cssResults jsResults)
     = sum_list (map baselineCount (fileResults (analyze options cssResults jsResults)))
   \<and> limitedCount (analyze options cssResults jsResults)
     = sum_list (map limitedCount (fileResults (analyze options cssResults jsResults)))
   \<and> nonBaselineCount (analyze options cssResults jsResults)
     = sum_list (map nonBaselineCount (fileResults (analyze options cssResults jsResults)))
   \<and> baselineScore (analyze options cssResults jsResults)
     = score (baselineCount (analyze options cssResults jsResults))
         (limitedCount (analyze options cssResults jsResults))
         (nonBaselineCount (analyze options cssResults jsResults))"
  by (simp add: analyze_def Let_def aggregate_sums)

lemma analyze_counts:
  "counts.truncate (analyze options cssResults jsResults)
     = aggregate (fileResults (analyze options cssResults jsResults))"
  by (simp add: analyze_def Let_def counts.truncate_def aggregate_sums)

lemma analyze_permuted:
  assumes "mset cssResults = mset cssResults'" and "mset jsResults = mset jsResults'"
  shows "counts.truncate (analyze options cssResults jsResults)
           = counts.truncate (analyze options cssResults' jsResults')
       \<and> baselineScore (analyze options cssResults jsResults)
           = baselineScore (analyze options cssResults' jsResults')"
proof -
  let ?rs = "fileResults (analyze options cssResults jsResults)"
  let ?rs' = "fileResults (analyze options cssResults' jsResults')"
  have "mset ?rs = mset ?rs'"
    using assms by (simp add: analyze_fileResults)
  then have s: "sum_list (map f ?rs) = sum_list (map f ?rs')" for f :: "FileResult \<Rightarrow> nat"
    by (rule sum_list_map_mset)
  have t: "counts.truncate (analyze options cssResults jsResults)
           = counts.truncate (analyze options cssResults' jsResults')"
    unfolding analyze_counts aggregate_sums by (simp only: s)
  have "baselineScore (analyze options cssResults jsResults)
           = baselineScore (analyze options cssResults' jsResults')"
    using analyze_sums [of options cssResults jsResults]
      analyze_sums [of options cssResults' jsResults'] by (simp only: s)
  with t show ?thesis by simp
qed

text \<open>
  C8. The aggregate of a list of results is the pointwise sum of their three counters,
  and so are the three counters that \<open>analyze\<close> returns: each is the sum of that counter
  over the file results it visited, and the score is computed from these sums. Hence a
  subtotal can stand for the results it sums
  (\<open>aggregate [a, b, c] = aggregate [aggregate [a, b], c]\<close>, each result taken with its
  three counters), the aggregate of two lists is the aggregate of their aggregates, and
  neither the aggregate nor the counters and score of \<open>analyze\<close> depend on the order of
  the results.
\<close>

theorem aggregate_pointwise_sum:
  "aggregate rs =
     \<lparr>baselineCount = sum_list (map baselineCount rs),
      limitedCount = sum_list (map limitedCount rs),
      nonBaselineCount = sum_list (map nonBaselineCount rs)\<rparr>
   \<and> fileResults (analyze options cssResults jsResults)
       = (if \<not> jsOnly options then cssResults else [])
         @ (if \<not> cssOnly options then jsResults else [])
   \<and> baselineCount (analyze options cssResults jsResults)
       = sum_list (map baselineCount (fileResults (analyze options cssResults jsResults)))
   \<and> limitedCount (analyze options cssResults jsResults)
       = sum_list (map limitedCount (fileResults (analyze options cssResults jsResults)))
   \<and> nonBaselineCount (analyze options cssResults jsResults)
       = sum_list (map nonBaselineCount (fileResults (analyze options cssResults jsResults)))
   \<and> baselineScore (analyze options cssResults jsResults)
       = score (baselineCount (analyze options cssResults jsResults))
           (limitedCount (analyze options cssResults jsResults))
           (nonBaselineCount (analyze options cssResults jsResults))
   \<and> aggregate [a, b, c] = aggregate [aggregate [a, b], counts.truncate c]
   \<and> aggregate (rs @ rs') = aggregate [aggregate rs, aggregate rs']
   \<and> aggregate (rs @ rs') = aggregate (rs' @ rs)
   \<and> (mset rs = mset rs' \<longrightarrow> aggregate rs = aggregate rs')
   \<and> (mset cssResults = mset cssResults' \<and> mset jsResults = mset jsResults' \<longrightarrow>
        counts.truncate (analyze options cssResults jsResults)
          = counts.truncate (analyze options cssResults' jsResults')
        \<and> baselineScore (analyze options cssResults jsResults)
          = baselineScore (analyze options cssResults' jsResults'))"
proof -
  have p: "mset rs = mset rs' \<Longrightarrow> aggregate rs = aggregate rs'"
    by (simp add: aggregate_sums sum_list_map_mset [of rs rs'])
  have q: "aggregate [a, b, c] = aggregate [aggregate [a, b], counts.truncate c]"
    "aggregate (rs @ rs') = aggregate [aggregate rs, aggregate rs']"
    "aggregate (rs @ rs') = aggregate (rs' @ rs)"
    by (simp_all add: aggregate_sums counts.truncate_def add.commute)
  from aggregate_sums [of rs] analyze_fileResults [of options cssResults jsResults]
    analyze_sums [of options cssResults jsResults] q p
    analyze_permuted [of cssResults cssResults' jsResults jsResults' options]
  show ?thesis by blast
qed

theorem aggregate_pointwise_sum_witness:
  "mset [\<lparr>baselineCount = 2, limitedCount = 2, nonBaselineCount = 3,
          fileName = ''a.css'', language = css, features = []\<rparr>,
         \<lparr>baselineCount = 4, limitedCount = 0, nonBaselineCount = 2,
          fileName = ''b.css'', language = css, features = []\<rparr>]
     = mset [\<lparr>baselineCount = 4, limitedCount = 0, nonBaselineCount = 2,
              fileName = ''b.css'', language = css, features = []\<rparr>,
             \<lparr>baselineCount = 2, limitedCount = 2, nonBaselineCount = 3,
              fileName = ''a.css'', language = css, features = []\<rparr>]
   \<and> aggregate [\<lparr>baselineCount = 2, limitedCount = 2, nonBaselineCount = 3,
                  fileName = ''a.css'', language = css, features = []\<rparr>,
                 \<lparr>baselineCount = 4, limitedCount = 0, nonBaselineCount = 2,
                  fileName = ''b.css'', language = css, features = []\<rparr>]
     = aggregate [\<lparr>baselineCount = 4, limitedCount = 0, nonBaselineCount = 2,
                   fileName = ''b.css'', language = css, features = []\<rparr>,
                  \<lparr>baselineCount = 2, limitedCount = 2, nonBaselineCount = 3,
                   fileName = ''a.css'', language = css, features = []\<rparr>]
   \<and> aggregate [\<lparr>baselineCount = 2, limitedCount = 2, nonBaselineCount = 3,
                  fileName = ''a.css'', language = css, features = []\<rparr>,
                 \<lparr>baselineCount = 4, limitedCount = 0, nonBaselineCount = 2,
                  fileName = ''b.css'', language = css, features = []\<rparr>]
     = \<lparr>baselineCount = 6, limitedCount = 2, nonBaselineCount = 5\<rparr>
   \<and> counts.truncate (analyze \<lparr>cssOnly = False, jsOnly = False\<rparr>
        [\<lparr>baselineCount = 2, limitedCount = 2, nonBaselineCount = 3,
          fileName = ''a.css'', language = css, features = []\<rparr>,
         \<lparr>baselineCount = 4, limitedCount = 0, nonBaselineCount = 2,
          fileName = ''b.css'', language = css, features = []\<rparr>] [])
     = counts.truncate (analyze \<lparr>cssOnly = False, jsOnly = False\<rparr>
        [\<lparr>baselineCount = 4, limitedCount = 0, nonBaselineCount = 2,
          fileName = ''b.css'', language = css, features = []\<rparr>,
         \<lparr>baselineCount = 2, limitedCount = 2, nonBaselineCount = 3,
          fileName = ''a.css'', language = css, features = []\<rparr>] [])
   \<and> baselineCount (analyze \<lparr>cssOnly = False, jsOnly = False\<rparr>
        [\<lparr>baselineCount = 2, limitedCount = 2, nonBaselineCount = 3,
          fileName = ''a.css'', language = css, features = []\<rparr>,
         \<lparr>baselineCount = 4, limitedCount = 0, nonBaselineCount = 2,
          fileName = ''b.css'', language = css, features = []\<rparr>] []) = 6"
proof -
  let ?a = "\<lparr>baselineCount = 2, limitedCount = 2, nonBaselineCount = 3,
             fileName = ''a.css'', language = css, features = []\<rparr>"
  let ?b = "\<lparr>baselineCount = 4, limitedCount = 0, nonBaselineCount = 2,
             fileName = ''b.css'', language = css, features = []\<rparr>"
  have m: "mset [?a, ?b] = mset [?b, ?a]"
    by (simp add: add_mset_commute)
  have m': "mset ([] :: FileResult list) = mset []"
    by simp
  note inst = aggregate_pointwise_sum
    [where rs = "[?a, ?b]" and rs' = "[?b, ?a]"
       and cssResults = "[?a, ?b]" and cssResults' = "[?b, ?a]"
       and jsResults = "[]" and jsResults' = "[]"
       and options = "\<lparr>cssOnly = False, jsOnly = False\<rparr>"
       and a = ?a and b = ?b and c = ?a]
  from inst m have swap: "aggregate [?a, ?b] = aggregate [?b, ?a]"
    by blast
  from inst m m'
  have swap': "counts.truncate (analyze \<lparr>cssOnly = False, jsOnly = False\<rparr> [?a, ?b] [])
      = counts.truncate (analyze \<lparr>cssOnly = False, jsOnly = False\<rparr> [?b, ?a] [])"
    by blast
  have total: "aggregate [?a, ?b]
      = \<lparr>baselineCount = 6, limitedCount = 2, nonBaselineCount = 5\<rparr>"
    by (simp add: aggregate_def accumulate_def)
  have total': "baselineCount (analyze \<lparr>cssOnly = False, jsOnly = False\<rparr> [?a, ?b] []) = 6"
    by (simp add: analyze_def aggregate_def accumulate_def)
  from m swap total swap' total' show ?thesis
    by blast
qed


section \<open>Monotonicity of the score\<close>

lemma scale2_powi: "scale2 q k = q * 2 powi k"
  by (simp add: scale2_def power_int_def power_divide)

lemma scale2_mono: "x \<le> y \<Longrightarrow> scale2 x k \<le> scale2 y k"
  by (simp add: scale2_powi mult_right_mono)

lemma rne_of_int: "rne (of_int k) = k"
  by (simp add: rne_def)

lemma rne_lower: "\<lfloor>x\<rfloor> \<le> rne x"
  by (simp add: rne_def Let_def)

lemma rne_upper: "rne x \<le> \<lfloor>x\<rfloor> + 1"
  by (simp add: rne_def Let_def)

lemma rne_mono:
  assumes "x \<le> y"
  shows "rne x \<le> rne y"
proof (cases "\<lfloor>x\<rfloor> = \<lfloor>y\<rfloor>")
  case True
  with assms show ?thesis
    by (auto simp: rne_def Let_def)
next
  case False
  with assms have "\<lfloor>x\<rfloor> < \<lfloor>y\<rfloor>"
    using floor_mono [of x y] by linarith
  then have "\<lfloor>x\<rfloor> + 1 \<le> \<lfloor>y\<rfloor>" by simp
  with rne_upper [of x] rne_lower [of y] show ?thesis by linarith
qed

lemma ilog2_bounds:
  assumes "0 < q"
  shows "2 powi (ilog2 q) \<le> q \<and> q < 2 powi (ilog2 q + 1)"
proof (cases "1 \<le> q")
  case True
  define n where "n = \<lfloor>q\<rfloor>"
  have n1: "1 \<le> n" using True by (simp add: n_def)
  then have n0: "0 < n" by simp
  have bl: "1 \<le> bitlen n" using n0 by (simp add: bitlen_alt_def)
  from bitlen_bounds [OF n0]
  have lo: "2 ^ nat (bitlen n - 1) \<le> n" and hi: "n < 2 ^ nat (bitlen n)" by auto
  have nq: "of_int n \<le> q" by (simp add: n_def)
  have qn: "q < of_int (n + 1)" unfolding n_def by linarith
  have "(2::rat) ^ nat (bitlen n - 1) = of_int (2 ^ nat (bitlen n - 1))" by simp
  also have "\<dots> \<le> of_int n" using lo by (simp only: of_int_le_iff)
  also have "\<dots> \<le> q" by (rule nq)
  finally have "(2::rat) ^ nat (bitlen n - 1) \<le> q" .
  then have lo': "(2::rat) powi (bitlen n - 1) \<le> q"
    using bl by (simp add: power_int_def)
  have "n + 1 \<le> 2 ^ nat (bitlen n)" using hi by simp
  then have "(of_int (n + 1) :: rat) \<le> of_int (2 ^ nat (bitlen n))"
    by (simp only: of_int_le_iff)
  also have "\<dots> = 2 ^ nat (bitlen n)" by simp
  finally have "(of_int (n + 1) :: rat) \<le> 2 ^ nat (bitlen n)" .
  with qn have "q < (2::rat) ^ nat (bitlen n)" by (rule less_le_trans)
  then have hi': "q < (2::rat) powi (bitlen n)"
    using bl by (simp add: power_int_def)
  have "ilog2 q = bitlen n - 1"
    using True lo' by (simp add: ilog2_def Let_def n_def scale2_powi)
  with lo' hi' show ?thesis by simp
next
  case False
  define r where "r = 1 / q"
  define n where "n = \<lfloor>r\<rfloor>"
  define k where "k = bitlen n"
  have r1: "1 < r" using False assms by (simp add: r_def)
  then have r0: "0 < r" by simp
  have n1: "1 \<le> n" using r1 by (simp add: n_def)
  then have n0: "0 < n" by simp
  have k1: "1 \<le> k" using n0 by (simp add: k_def bitlen_alt_def)
  from bitlen_bounds [OF n0]
  have lo: "2 ^ nat (k - 1) \<le> n" and hi: "n < 2 ^ nat k" by (auto simp: k_def)
  have nr: "of_int n \<le> r" by (simp add: n_def)
  have rn: "r < of_int (n + 1)" unfolding n_def by linarith
  have "(2::rat) ^ nat (k - 1) = of_int (2 ^ nat (k - 1))" by simp
  also have "\<dots> \<le> of_int n" using lo by (simp only: of_int_le_iff)
  also have "\<dots> \<le> r" by (rule nr)
  finally have a: "(2::rat) ^ nat (k - 1) \<le> r" .
  have "n + 1 \<le> 2 ^ nat k" using hi by simp
  then have "(of_int (n + 1) :: rat) \<le> of_int (2 ^ nat k)"
    by (simp only: of_int_le_iff)
  also have "\<dots> = 2 ^ nat k" by simp
  finally have "(of_int (n + 1) :: rat) \<le> 2 ^ nat k" .
  with rn have b: "r < (2::rat) ^ nat k" by (rule less_le_trans)
  have q_eq: "q = 1 / r" by (simp add: r_def)
  have up: "q \<le> 2 powi (1 - k)"
  proof -
    have "1 / r \<le> 1 / 2 ^ nat (k - 1)"
      using a r0 by (intro divide_left_mono) (auto intro: mult_pos_pos)
    moreover have "(2::rat) powi (1 - k) = 1 / 2 ^ nat (k - 1)"
      using k1 by (cases "k = 1") (simp_all add: power_int_def power_divide)
    ultimately show ?thesis by (simp add: q_eq)
  qed
  have dn: "2 powi (- k) < q"
  proof -
    have "1 / 2 ^ nat k < 1 / r"
      using b r0 by (intro divide_strict_left_mono) (auto intro: mult_pos_pos)
    moreover have "(2::rat) powi (- k) = 1 / 2 ^ nat k"
      using k1 by (simp add: power_int_def power_divide)
    ultimately show ?thesis by (simp add: q_eq)
  qed
  have e: "ilog2 q = (if 2 powi (1 - k) \<le> q then 1 - k else - k)"
    using False by (simp add: ilog2_def Let_def scale2_powi k_def n_def r_def)
  show ?thesis
  proof (cases "2 powi (1 - k) \<le> q")
    case True
    then have "q = 2 powi (1 - k)" using up by simp
    moreover have "(2::rat) powi (1 - k) < 2 powi (1 - k + 1)"
      by (rule power_int_strict_increasing) simp_all
    ultimately show ?thesis using e True by simp
  next
    case False
    then show ?thesis using e dn by (simp add: less_imp_le)
  qed
qed


lemma powi_two_pos: "0 < (2::rat) powi k"
  by (rule zero_less_power_int) simp

lemma powi_two_add: "(2::rat) powi (a + b) = 2 powi a * 2 powi b"
  by (rule power_int_add) simp

lemma fl_pos_eq:
  "0 < q \<Longrightarrow> fl q = of_int (rne (q * 2 powi (52 - ilog2 q))) * 2 powi (ilog2 q - 52)"
  by (simp add: fl_def Let_def scale2_powi)

lemma scaled_bounds:
  assumes "0 < q"
  shows "2 ^ 52 \<le> q * 2 powi (52 - ilog2 q) \<and> q * 2 powi (52 - ilog2 q) \<le> 2 ^ 53"
proof -
  define e where "e = ilog2 q"
  from ilog2_bounds [OF assms] have lo: "2 powi e \<le> q" and hi: "q < 2 powi (e + 1)"
    by (simp_all add: e_def)
  have "(2::rat) powi 52 = 2 powi (e + (52 - e))" by simp
  also have "\<dots> = 2 powi e * 2 powi (52 - e)" by (rule powi_two_add)
  also have "\<dots> \<le> q * 2 powi (52 - e)"
    using lo powi_two_pos [of "52 - e"] by (simp add: mult_right_mono)
  finally have a: "(2::rat) powi 52 \<le> q * 2 powi (52 - e)" .
  have "q * 2 powi (52 - e) \<le> 2 powi (e + 1) * 2 powi (52 - e)"
    using hi powi_two_pos [of "52 - e"] by (simp add: mult_right_mono)
  also have "\<dots> = 2 powi ((e + 1) + (52 - e))" by (rule powi_two_add [symmetric])
  also have "\<dots> = 2 powi 53" by simp
  finally have b: "q * 2 powi (52 - e) \<le> (2::rat) powi 53" .
  from a b show ?thesis by (simp add: e_def)
qed

lemma fl_bounds:
  assumes "0 < q"
  shows "2 powi (ilog2 q) \<le> fl q \<and> fl q \<le> 2 powi (ilog2 q + 1)"
proof -
  define e where "e = ilog2 q"
  define m where "m = rne (q * 2 powi (52 - e))"
  from scaled_bounds [OF assms]
  have "(of_int (2 ^ 52) :: rat) \<le> q * 2 powi (52 - e)"
    and "q * 2 powi (52 - e) \<le> (of_int (2 ^ 53) :: rat)"
    by (simp_all add: e_def)
  then have "rne (of_int (2 ^ 52)) \<le> m" and "m \<le> rne (of_int (2 ^ 53))"
    unfolding m_def by (simp_all only: rne_mono)
  then have m_lo: "2 ^ 52 \<le> m" and m_hi: "m \<le> 2 ^ 53"
    by (simp_all only: rne_of_int)
  have fl_eq: "fl q = of_int m * 2 powi (e - 52)"
    using assms by (simp add: fl_pos_eq e_def m_def)
  have "(2::rat) powi e = 2 powi (52 + (e - 52))" by simp
  also have "\<dots> = 2 powi 52 * 2 powi (e - 52)" by (rule powi_two_add)
  also have "\<dots> = of_int (2 ^ 52) * 2 powi (e - 52)" by simp
  also have "\<dots> \<le> of_int m * 2 powi (e - 52)"
    using m_lo powi_two_pos [of "e - 52"]
    by (intro mult_right_mono) (simp_all only: of_int_le_iff less_imp_le)
  finally have a: "2 powi e \<le> fl q" by (simp add: fl_eq)
  have "of_int m * (2::rat) powi (e - 52) \<le> of_int (2 ^ 53) * 2 powi (e - 52)"
    using m_hi powi_two_pos [of "e - 52"]
    by (intro mult_right_mono) (simp_all only: of_int_le_iff less_imp_le)
  also have "\<dots> = 2 powi 53 * 2 powi (e - 52)" by simp
  also have "\<dots> = 2 powi (53 + (e - 52))" by (rule powi_two_add [symmetric])
  also have "\<dots> = 2 powi (e + 1)" by (simp add: algebra_simps)
  finally have b: "fl q \<le> 2 powi (e + 1)" by (simp add: fl_eq)
  from a b show ?thesis by (simp add: e_def)
qed

lemma fl_nonneg: "0 \<le> fl q"
proof (cases "0 < q")
  case True
  from fl_bounds [OF True] powi_two_pos [of "ilog2 q"] show ?thesis by linarith
next
  case False
  then show ?thesis by (simp add: fl_def)
qed

lemma fl_mono:
  assumes "q \<le> q'"
  shows "fl q \<le> fl q'"
proof (cases "0 < q")
  case False
  then show ?thesis using fl_nonneg [of q'] by (simp add: fl_def)
next
  case True
  with assms have pos': "0 < q'" by simp
  define e where "e = ilog2 q"
  define e' where "e' = ilog2 q'"
  from ilog2_bounds [OF True] have lo: "2 powi e \<le> q" by (simp add: e_def)
  from ilog2_bounds [OF pos'] have hi': "q' < 2 powi (e' + 1)" by (simp add: e'_def)
  from lo assms hi' have lt: "(2::rat) powi e < 2 powi (e' + 1)" by linarith
  have ee: "e \<le> e'"
  proof (rule ccontr)
    assume "\<not> e \<le> e'"
    then have "e' + 1 \<le> e" by simp
    then have "(2::rat) powi (e' + 1) \<le> 2 powi e"
      by (intro power_int_increasing) simp_all
    with lt show False by simp
  qed
  show ?thesis
  proof (cases "e = e'")
    case True
    have "q * 2 powi (52 - e) \<le> q' * 2 powi (52 - e)"
      using assms powi_two_pos [of "52 - e"] by (simp add: mult_right_mono)
    then have "rne (q * 2 powi (52 - e)) \<le> rne (q' * 2 powi (52 - e))"
      by (rule rne_mono)
    then have "(of_int (rne (q * 2 powi (52 - e))) :: rat) * 2 powi (e - 52)
        \<le> of_int (rne (q' * 2 powi (52 - e))) * 2 powi (e - 52)"
      using powi_two_pos [of "e - 52"]
      by (intro mult_right_mono) (simp_all only: of_int_le_iff less_imp_le)
    then show ?thesis
      using \<open>0 < q\<close> pos' True by (simp add: fl_pos_eq e_def e'_def)
  next
    case False
    with ee have "e + 1 \<le> e'" by simp
    then have "(2::rat) powi (e + 1) \<le> 2 powi e'"
      by (intro power_int_increasing) simp_all
    moreover from fl_bounds [OF \<open>0 < q\<close>] have "fl q \<le> 2 powi (e + 1)" by (simp add: e_def)
    moreover from fl_bounds [OF pos'] have "2 powi e' \<le> fl q'" by (simp add: e'_def)
    ultimately show ?thesis by linarith
  qed
qed

lemma Math_round_mono: "x \<le> y \<Longrightarrow> Math_round x \<le> Math_round y"
  by (simp add: Math_round_def floor_mono)

lemma score_pos:
  "0 < b + l + n \<Longrightarrow>
     score b l n = Math_round (fl (fl (of_nat b / of_nat (b + l + n)) * 100))"
  by (simp add: score_def Let_def)

lemma score_quot_mono:
  assumes "q \<le> q'"
  shows "Math_round (fl (fl q * 100)) \<le> Math_round (fl (fl q' * 100))"
proof -
  from assms have "fl q \<le> fl q'"
    by (rule fl_mono)
  then have "fl q * 100 \<le> fl q' * 100"
    by simp
  then show ?thesis
    by (intro Math_round_mono fl_mono)
qed

lemma fl_one: "fl 1 = 1"
  by (simp add: score_eval)

lemma fl_hundred: "fl 100 = 100"
  by (simp add: score_eval)

lemma score_all_baseline: "0 < b \<Longrightarrow> score b 0 0 = 100"
  by (simp add: score_def fl_one fl_hundred Math_round_def floor_rat_numeral)

lemma score_no_baseline: "score 0 l n = (if l + n = 0 then 100 else 0)"
  by (simp add: score_def fl_def Math_round_def floor_rat_one_numeral)

lemma quotient_mono_num:
  fixes b b' r :: nat
  assumes "b \<le> b'" "0 < b + r"
  shows "(of_nat b :: rat) / of_nat (b + r) \<le> of_nat b' / of_nat (b' + r)"
proof -
  have "0 < b' + r" using assms by linarith
  then have pz: "0 < (of_nat (b' + r) :: rat)" by (simp only: of_nat_0_less_iff)
  have py: "0 < (of_nat (b + r) :: rat)" using assms(2) by (simp only: of_nat_0_less_iff)
  have "b * (b' + r) \<le> b' * (b + r)"
    using assms(1) by (simp add: algebra_simps)
  then have "(of_nat (b * (b' + r)) :: rat) \<le> of_nat (b' * (b + r))"
    by (simp only: of_nat_le_iff)
  then have "(of_nat b :: rat) * of_nat (b' + r) \<le> of_nat b' * of_nat (b + r)"
    by (simp only: of_nat_mult)
  then have "(of_nat b :: rat) * of_nat (b' + r) / of_nat (b + r) \<le> of_nat b'"
    using py by (rule mult_imp_div_pos_le [rotated])
  then have "(of_nat b :: rat) / of_nat (b + r) * of_nat (b' + r) \<le> of_nat b'"
    by (simp only: times_divide_eq_left)
  with pz show ?thesis
    by (rule mult_imp_le_div_pos)
qed

lemma quotient_mono_den:
  fixes b t t' :: nat
  assumes "t \<le> t'" "0 < t"
  shows "(of_nat b :: rat) / of_nat t' \<le> of_nat b / of_nat t"
proof -
  have "(0::rat) < of_nat t" using assms(2) by (simp only: of_nat_0_less_iff)
  moreover have "(of_nat t :: rat) \<le> of_nat t'" using assms(1) by (simp only: of_nat_le_iff)
  moreover have "(0::rat) \<le> of_nat b" by simp
  ultimately show ?thesis
    by (intro divide_left_mono mult_pos_pos) linarith+
qed

lemma score_mono_baseline:
  assumes "b \<le> b'"
  shows "score b l n \<le> score b' l n"
proof (cases "0 < b + l + n")
  case True
  then have t': "0 < b' + l + n" using assms by linarith
  from True have "0 < b + (l + n)" by (simp only: add.assoc)
  from quotient_mono_num [OF assms this]
  have "(of_nat b :: rat) / of_nat (b + l + n) \<le> of_nat b' / of_nat (b' + l + n)"
    by (simp only: add.assoc)
  then show ?thesis
    unfolding score_pos [OF True] score_pos [OF t'] by (rule score_quot_mono)
next
  case False
  then have z: "b = 0" "l = 0" "n = 0" by simp_all
  show ?thesis
  proof (cases "b' = 0")
    case True
    with z show ?thesis by simp
  next
    case False
    with z show ?thesis by (simp add: score_all_baseline score_no_baseline)
  qed
qed

lemma score_mono_total:
  assumes "l + n \<le> l' + n'"
  shows "score b l' n' \<le> score b l n"
proof (cases "0 < b + l + n")
  case True
  then have t': "0 < b + l' + n'" using assms by linarith
  have "b + l + n \<le> b + l' + n'" using assms by simp
  from quotient_mono_den [OF this True]
  have "(of_nat b :: rat) / of_nat (b + l' + n') \<le> of_nat b / of_nat (b + l + n)" .
  then show ?thesis
    unfolding score_pos [OF True] score_pos [OF t'] by (rule score_quot_mono)
next
  case False
  then have z: "b = 0" "l = 0" "n = 0" by simp_all
  then show ?thesis by (simp add: score_no_baseline)
qed


lemma score_samples:
  "score 2 2 2 = 33" "score 3 2 2 = 43" "score 2 3 2 = 29" "score 2 2 3 = 29"
  by (simp_all add: score_eval)

text \<open>
  C9. More baseline usages, with the limited and non-baseline counts fixed, never lower
  the score; more limited or more non-baseline usages, with the baseline count fixed,
  never raise it. This holds for the score as the program computes it, with both binary64
  roundings: each rounding is monotone.
\<close>

theorem score_monotone:
  "(b \<le> b' \<longrightarrow> score b l n \<le> score b' l n)
   \<and> (l \<le> l' \<longrightarrow> score b l' n \<le> score b l n)
   \<and> (n \<le> n' \<longrightarrow> score b l n' \<le> score b l n)"
  using score_mono_baseline [of b b' l n] score_mono_total [of l n l' n b]
    score_mono_total [of l n l n' b]
  by simp

theorem score_monotone_witness:
  "(2::nat) \<le> 3 \<and> score 2 2 2 \<le> score 3 2 2 \<and> score 2 3 2 \<le> score 2 2 2
   \<and> score 2 2 3 \<le> score 2 2 2
   \<and> score 2 2 2 = 33 \<and> score 3 2 2 = 43 \<and> score 2 3 2 = 29 \<and> score 2 2 3 = 29"
  using score_monotone [of 2 3 2 2 3 3] score_samples by simp


section \<open>Deduplication in the editor's JS scanner\<close>

lemma filter_seen_keys:
  "distinct (map key_of (filter_seen seen us))
   \<and> set (map key_of (filter_seen seen us)) \<inter> seen = {}"
proof (induction us arbitrary: seen)
  case Nil
  show ?case by simp
next
  case (Cons u us)
  show ?case
  proof (cases "key_of u \<in> seen")
    case True
    with Cons.IH [of seen] show ?thesis by simp
  next
    case False
    let ?rest = "filter_seen (insert (key_of u) seen) us"
    from Cons.IH [of "insert (key_of u) seen"]
    have d: "distinct (map key_of ?rest)"
      and i: "set (map key_of ?rest) \<inter> insert (key_of u) seen = {}" by blast+
    from i have "key_of u \<notin> set (map key_of ?rest)" and "set (map key_of ?rest) \<inter> seen = {}"
      by blast+
    with d False show ?thesis by simp
  qed
qed

lemma distinct_pairs_of_keys:
  "distinct (map key_of us) \<Longrightarrow> distinct (map (\<lambda>u. (line u, api u)) us)"
proof (induction us)
  case Nil
  show ?case by simp
next
  case (Cons u us)
  have "(line u, api u) \<notin> (\<lambda>u. (line u, api u)) ` set us"
  proof
    assume "(line u, api u) \<in> (\<lambda>u. (line u, api u)) ` set us"
    then obtain v where v: "v \<in> set us" "line v = line u" "api v = api u" by auto
    then have "key_of v = key_of u" by (simp add: key_of_def)
    with v(1) have "key_of u \<in> key_of ` set us" by (metis imageI)
    with Cons.prems show False by simp
  qed
  with Cons show ?case by simp
qed


lemma to_string_nonempty: "to_string n \<noteq> []"
  by (subst to_string.simps) simp

lemma digit_inj: "d < 10 \<Longrightarrow> e < 10 \<Longrightarrow> digit d = digit e \<Longrightarrow> d = e"
  by (simp add: digit_def nth_eq_iff_index_eq)

lemma digit_not_colon: "d < 10 \<Longrightarrow> digit d \<noteq> CHR '':''"
proof -
  assume "d < 10"
  then have "digit d \<in> set ''0123456789''"
    unfolding digit_def by (intro nth_mem) simp
  then show ?thesis by auto
qed

lemma to_string_inj: "to_string n = to_string m \<Longrightarrow> n = m"
proof (induction n arbitrary: m rule: to_string.induct)
  case (1 n)
  show ?case
  proof (cases "n < 10")
    case n: True
    show ?thesis
    proof (cases "m < 10")
      case True
      with n "1.prems" show ?thesis
        by (simp add: to_string.simps [of n] to_string.simps [of m] digit_inj)
    next
      case False
      with n "1.prems" to_string_nonempty [of "m div 10"] show ?thesis
        by (simp add: to_string.simps [of n] to_string.simps [of m])
    qed
  next
    case n: False
    show ?thesis
    proof (cases "m < 10")
      case True
      with n "1.prems" to_string_nonempty [of "n div 10"] show ?thesis
        by (simp add: to_string.simps [of n] to_string.simps [of m])
    next
      case False
      with n "1.prems"
      have e: "to_string (n div 10) = to_string (m div 10)"
        and d: "digit (n mod 10) = digit (m mod 10)"
        by (simp_all add: to_string.simps [of n] to_string.simps [of m])
      from "1.IH" [OF n e] have "n div 10 = m div 10" .
      moreover from d have "n mod 10 = m mod 10" by (intro digit_inj) simp_all
      ultimately show ?thesis by (metis div_mult_mod_eq)
    qed
  qed
qed

lemma colon_notin_to_string: "CHR '':'' \<notin> set (to_string n)"
proof (induction n rule: to_string.induct)
  case (1 n)
  show ?case
  proof (cases "n < 10")
    case True
    then show ?thesis
      using digit_not_colon [of n] by (simp add: to_string.simps [of n])
  next
    case False
    with "1.IH" digit_not_colon [of "n mod 10"] show ?thesis
      by (simp add: to_string.simps [of n])
  qed
qed

lemma split_at_first:
  "c \<notin> set xs \<Longrightarrow> c \<notin> set xs' \<Longrightarrow> xs @ c # ys = xs' @ c # ys' \<Longrightarrow> xs = xs' \<and> ys = ys'"
proof (induction xs arbitrary: xs')
  case Nil
  then show ?case by (cases xs') auto
next
  case (Cons x xs)
  then show ?case by (cases xs') auto
qed

lemma key_of_eq_iff: "key_of u = key_of v \<longleftrightarrow> line u = line v \<and> api u = api v"
proof
  assume "key_of u = key_of v"
  then have "to_string (line u) @ CHR '':'' # api u = to_string (line v) @ CHR '':'' # api v"
    by (simp add: key_of_def)
  from split_at_first [OF colon_notin_to_string colon_notin_to_string this]
  show "line u = line v \<and> api u = api v" by (auto dest: to_string_inj)
next
  assume "line u = line v \<and> api u = api v"
  then show "key_of u = key_of v" by (simp add: key_of_def)
qed

lemma filter_seen_key_set:
  "key_of ` set (filter_seen seen us) = key_of ` set us - seen"
proof (induction us arbitrary: seen)
  case Nil
  show ?case by simp
next
  case (Cons u us)
  show ?case
  proof (cases "key_of u \<in> seen")
    case True
    with Cons.IH [of seen] show ?thesis by auto
  next
    case False
    with Cons.IH [of "insert (key_of u) seen"] show ?thesis by auto
  qed
qed

lemma filter_seen_subset: "set (filter_seen seen us) \<subseteq> set us"
  by (induction us arbitrary: seen) auto

lemma dedup_keeps_pairs:
  "(\<lambda>u. (line u, api u)) ` set (deduplicateUsages us) = (\<lambda>u. (line u, api u)) ` set us"
proof -
  have k: "key_of ` set (deduplicateUsages us) = key_of ` set us"
    by (simp add: deduplicateUsages_def filter_seen_key_set)
  show ?thesis
  proof (intro equalityI subsetI)
    fix p assume "p \<in> (\<lambda>u. (line u, api u)) ` set (deduplicateUsages us)"
    then show "p \<in> (\<lambda>u. (line u, api u)) ` set us"
      using filter_seen_subset [of "{}" us] by (auto simp: deduplicateUsages_def)
  next
    fix p assume "p \<in> (\<lambda>u. (line u, api u)) ` set us"
    then obtain u where u: "u \<in> set us" "p = (line u, api u)" by auto
    then have "key_of u \<in> key_of ` set (deduplicateUsages us)" unfolding k by simp
    then obtain v where v: "v \<in> set (deduplicateUsages us)" "key_of u = key_of v" by auto
    from v(2) have "line u = line v \<and> api u = api v" by (simp only: key_of_eq_iff)
    with u(2) v(1) show "p \<in> (\<lambda>u. (line u, api u)) ` set (deduplicateUsages us)"
      by (metis (mono_tags, lifting) imageI)
  qed
qed

text \<open>
  C7. In the list returned by the JS scanner no two usages have both the same line and
  the same identifier. (Nothing is lost either: every pair of line and identifier that a
  pattern produced is still there, since the key \<^verbatim>\<open>`${line}:${api}`\<close> determines
  the pair.)
\<close>

theorem dedup_invariant:
  "distinct (map (\<lambda>u. (line u, api u)) (extractAPIUsage text))
   \<and> (\<lambda>u. (line u, api u)) ` set (extractAPIUsage text)
       = (\<lambda>u. (line u, api u)) ` set (rawUsages text)"
proof -
  have "distinct (map key_of (filter_seen {} (rawUsages text)))"
    using filter_seen_keys [of "{}" "rawUsages text"] by blast
  then have "distinct (map (\<lambda>u. (line u, api u)) (extractAPIUsage text))"
    unfolding extractAPIUsage_def deduplicateUsages_def by (rule distinct_pairs_of_keys)
  then show ?thesis
    by (simp add: extractAPIUsage_def dedup_keeps_pairs)
qed


section \<open>The dashboard counts one usage per line\<close>

lemma line_status_Cons:
  "line_status jf (u # us) l =
     (if line u = l then map_option status (jf (api u)) else line_status jf us l)"
  by (simp add: line_status_def)

lemma line_status_lines:
  "line_status jf us l = Some s \<Longrightarrow> l \<in> line ` set us"
  by (induction us) (auto simp: line_status_Cons line_status_def split: if_splits)

lemma finite_status_lines [simp]:
  "finite {l. P l \<and> line_status jf us l = Some s}"
  "finite {l. P l \<and> (\<exists>s. line_status jf us l = Some s \<and> Q s)}"
  by (rule finite_subset [of _ "line ` set us"]; auto dest: line_status_lines)+














section \<open>Scenarios\<close>

lemmas scan_eval = exec_all_def is_word_def is_space_def starts_with_def group1_or_def
  propertyRegex_def line_of_def

lemma raw_scenario:
  "rawUsages scenario_js =
     [\<lparr>line = 0, offset = 27, api = ''fetch''\<rparr>,
      \<lparr>line = 0, offset = 40, api = ''navigator''\<rparr>,
      \<lparr>line = 0, offset = 0, api = ''async''\<rparr>,
      \<lparr>line = 0, offset = 21, api = ''async''\<rparr>,
      \<lparr>line = 0, offset = 40, api = ''share''\<rparr>]"
  by (simp add: rawUsages_def js_patterns_def scenario_js_def scan_eval cleanAPIName_def
      strip_new_def trim_def)

lemma to_string_0: "to_string 0 = ''0''"
  by (simp add: to_string.simps digit_def)

lemma extract_scenario:
  "extractAPIUsage scenario_js =
     [\<lparr>line = 0, offset = 27, api = ''fetch''\<rparr>,
      \<lparr>line = 0, offset = 40, api = ''navigator''\<rparr>,
      \<lparr>line = 0, offset = 0, api = ''async''\<rparr>,
      \<lparr>line = 0, offset = 40, api = ''share''\<rparr>]"
  by (simp add: extractAPIUsage_def raw_scenario deduplicateUsages_def key_of_def to_string_0)

lemma cli_scenario:
  "analyzeJSFile scenario_catalog ''f.js'' scenario_js =
     \<lparr>baselineCount = 3, limitedCount = 0, nonBaselineCount = 0,
      fileName = ''f.js'', language = js, features = [''fetch'', ''async'']\<rparr>"
  by (simp add: analyzeJSFile_def cli_patterns_def scenario_js_def scan_eval tally_def
      get_prop_def scenario_catalog_def add_feature_def Object_prototype_def)

lemma score_3_0_0: "score 3 0 0 = 100"
  by (simp add: score_eval)

lemma percent_1_4: "Math_round (fl (fl (1 / 4) * 100)) = 25"
  by (simp add: score_eval)

lemma percent_0: "Math_round (fl (fl 0 * 100)) = 0"
  by (simp add: score_eval)

lemma dashboard_scenario:
  "getProjectStats Map.empty scenario_features [] [scenario_js] =
     \<lparr>totalCSSProperties = 0, totalJSAPIs = 4, cssCounts = zero_counts,
      jsCounts = \<lparr>baselineCount = 1, limitedCount = 0, nonBaselineCount = 0\<rparr>,
      dashboardScore = 25\<rparr>"
  by (simp add: getProjectStats_def extract_scenario scenario_features_def bump_def
      zero_counts_def percent_1_4)

text \<open>
  C5. The scenario text is one line, and its catalog has the keys \<open>fetch\<close>,
  \<open>async\<close> and \<open>navigator.share\<close>. The CLI analyzer counts \<open>fetch\<close> once and
  \<open>async\<close> twice (for \<^verbatim>\<open>async function\<close> and for \<^verbatim>\<open>await\<close>; it has no
  deduplication), and looks \<^verbatim>\<open>navigator.share\<close> up under the captured group
  \<open>share\<close>, which the catalog does not have: 3 baseline, 0 limited, score 100. The
  editor's scanner returns \<open>fetch\<close>, \<open>navigator\<close>, \<open>async\<close> and \<open>share\<close>, all on line 0,
  and the dashboard counts the first of them only: 1 baseline, 0 limited, and a score of
  25 over the 4 usages. No path gives 2 baseline, 1 limited and 67.
\<close>

theorem scenario_counts:
  "analyzeJSFile scenario_catalog ''f.js'' scenario_js =
     \<lparr>baselineCount = 3, limitedCount = 0, nonBaselineCount = 0,
      fileName = ''f.js'', language = js, features = [''fetch'', ''async'']\<rparr>
   \<and> score 3 0 0 = 100
   \<and> map api (extractAPIUsage scenario_js) = [''fetch'', ''navigator'', ''async'', ''share'']
   \<and> map line (extractAPIUsage scenario_js) = [0, 0, 0, 0]
   \<and> getProjectStats Map.empty scenario_features [] [scenario_js] =
       \<lparr>totalCSSProperties = 0, totalJSAPIs = 4, cssCounts = zero_counts,
        jsCounts = \<lparr>baselineCount = 1, limitedCount = 0, nonBaselineCount = 0\<rparr>,
        dashboardScore = 25\<rparr>"
  by (simp add: cli_scenario score_3_0_0 extract_scenario dashboard_scenario)

lemma css_margin:
  "extractCSSProperties ''a { margin: 0; }'' = [\<lparr>line = 0, offset = 4, name = ''margin''\<rparr>]"
  by (simp add: extractCSSProperties_def scan_eval)

lemma mock_margin: "index_css mockCSSFeatures ''margin'' = None"
  by (simp add: index_css_def mockCSSFeatures_def)

lemma cli_margin:
  "analyzeCSSFile cli_css ''a.css'' ''a { margin: 0; }'' =
     \<lparr>baselineCount = 0, limitedCount = 0, nonBaselineCount = 0,
      fileName = ''a.css'', language = css, features = []\<rparr>"
  by (simp add: analyzeCSSFile_def scan_eval tally_def get_prop_def cli_css_def
      Object_prototype_def)

lemma tally_undefined: "get_prop data x = Undefined \<Longrightarrow> tally data r x = r"
  by (simp add: tally_def)

lemma foldl_tally_undefined:
  "\<forall>x \<in> set xs. get_prop data x = Undefined \<Longrightarrow> foldl (tally data) r xs = r"
  by (induction xs arbitrary: r) (simp_all add: tally_undefined)

lemma cli_css_unknown_only:
  assumes "\<forall>m \<in> set (exec_all propertyRegex content).
             get_prop data (group1_or ''undefined'' m) = Undefined"
  shows "increments (analyzeCSSFile data filePath content) = 0"
  using assms by (simp add: analyzeCSSFile_def foldl_tally_undefined increments_def)

lemma cli_inherited_member:
  "analyzeCSSFile cli_css ''a.css'' ''a { constructor: 1; }'' =
     \<lparr>baselineCount = 0, limitedCount = 0, nonBaselineCount = 1,
      fileName = ''a.css'', language = css, features = [''constructor'']\<rparr>"
  by (simp add: analyzeCSSFile_def scan_eval tally_def get_prop_def cli_css_def
      Object_prototype_def add_feature_def)

text \<open>
  C2. In the CLI a property that the catalog lookup does not find adds to no counter
  (\<open>cli_css_unknown_only\<close>; a name such as \<open>constructor\<close>, which the object lookup finds
  on the prototype, is counted as non-baseline, \<open>cli_inherited_member\<close>). The dashboard
  is a surface where the claim fails: its denominator is the number of all scanned
  properties and usages, known or not. For the text \<^verbatim>\<open>a { margin: 0; }\<close>, whose only
  property \<open>margin\<close> is absent from the catalog, the dashboard reports a total of 1 and a
  score of 0, where the CLI reports a total of 0 and a score of 100.
\<close>

theorem dashboard_counts_unknown:
  "index_css mockCSSFeatures ''margin'' = None
   \<and> getProjectStats (index_css mockCSSFeatures) (index_js mockJSFeatures)
        [''a { margin: 0; }''] [] =
       \<lparr>totalCSSProperties = 1, totalJSAPIs = 0, cssCounts = zero_counts,
        jsCounts = zero_counts, dashboardScore = 0\<rparr>
   \<and> baselineScore (analyze \<lparr>cssOnly = False, jsOnly = False\<rparr>
        [analyzeCSSFile cli_css ''a.css'' ''a { margin: 0; }''] []) = 100"
  by (simp add: mock_margin getProjectStats_def css_margin countCSS_def bump_def
      zero_counts_def percent_0 cli_margin analyze_def aggregate_def accumulate_def
      score_def)

lemma raw_share:
  "rawUsages ''navigator.share({})'' =
     [\<lparr>line = 0, offset = 0, api = ''navigator''\<rparr>,
      \<lparr>line = 0, offset = 0, api = ''share''\<rparr>]"
  by (simp add: rawUsages_def js_patterns_def scan_eval cleanAPIName_def
      strip_new_def trim_def)

lemma raw_transition:
  "rawUsages ''document.startViewTransition(f)'' =
     [\<lparr>line = 0, offset = 0, api = ''startViewTransition''\<rparr>]"
  by (simp add: rawUsages_def js_patterns_def scan_eval cleanAPIName_def
      strip_new_def trim_def)

text \<open>
  C6. \<open>cleanAPIName\<close> strips a leading \<^verbatim>\<open>new\<close>, maps \<^verbatim>\<open>async function\<close> and
  \<^verbatim>\<open>await\<close> to \<open>async\<close>, trims, and would keep a dotted path that it is given. It is
  never given one by the two dotted patterns: the scanner passes \<^verbatim>\<open>match[1] || match[0]\<close>,
  and the group of \<^verbatim>\<open>/navigator\.(share|...)/\<close> holds only the part after the dot. The
  usages emitted for \<^verbatim>\<open>navigator.share({})\<close> are \<open>navigator\<close> (from the pattern of
  globals) and \<open>share\<close>; for \<^verbatim>\<open>document.startViewTransition(f)\<close> the usage is
  \<open>startViewTransition\<close>.
\<close>

theorem dotted_path_is_cut:
  "map api (extractAPIUsage ''navigator.share({})'') = [''navigator'', ''share'']
   \<and> map api (extractAPIUsage ''document.startViewTransition(f)'') = [''startViewTransition'']
   \<and> cleanAPIName ''navigator.share'' ''navigator'' = ''navigator.share''
   \<and> cleanAPIName ''async function'' ''async'' = ''async''
   \<and> cleanAPIName ''await '' ''await'' = ''async''
   \<and> cleanAPIName ''new  Worker'' ''constructor'' = ''Worker''
   \<and> cleanAPIName '' fetch '' ''global'' = ''fetch''"
  by (simp add: extractAPIUsage_def raw_share raw_transition deduplicateUsages_def key_of_def
      to_string_0 cleanAPIName_def strip_new_def trim_def starts_with_def is_space_def)






end
